theory Spec2Isabelle
  imports Main "HOL-Library.Word" "HOL-Library.Sublist"
begin

unbundle bit_operations_syntax

section \<open>Bytes, slices and the store\<close>

text \<open>
  A Go byte slice is a window on a backing array: the array it points into, the index
  of its first element and its length. The store maps every backing array to its
  current contents. Two slices on the same array share its bytes, so a write through
  one is seen through the other.
\<close>

type_synonym byte = "8 word"

type_synonym heap = "nat \<Rightarrow> byte list"

record slice =
  arr :: nat
  off :: nat
  len :: nat

definition valid_slice :: "heap \<Rightarrow> slice \<Rightarrow> bool" where
  "valid_slice h s = (off s + len s \<le> length (h (arr s)))"

text \<open>The bytes seen through a slice: \<open>s[0]\<close>, ..., \<open>s[len(s)-1]\<close>.\<close>

definition slice_bytes :: "heap \<Rightarrow> slice \<Rightarrow> byte list" where
  "slice_bytes h s = take (len s) (drop (off s) (h (arr s)))"

text \<open>The slice expression \<open>s[i:j]\<close>: same array, no copy.\<close>

definition reslice :: "slice \<Rightarrow> nat \<Rightarrow> nat \<Rightarrow> slice" where
  "reslice s i j = \<lparr>arr = arr s, off = off s + i, len = j - i\<rparr>"

text \<open>The assignment \<open>s[i] = v\<close> on the store (for \<open>i < len(s)\<close>).\<close>

definition slice_store :: "heap \<Rightarrow> slice \<Rightarrow> nat \<Rightarrow> byte \<Rightarrow> heap" where
  "slice_store h s i v = h(arr s := (h (arr s))[off s + i := v])"

section \<open>Addresses of the net package\<close>

text \<open>
  \<open>net.IP\<close> is a byte slice. A value of that type is \<open>nil\<close>, a window on an array
  that somebody else may hold as well, or a freshly allocated array that nobody else
  holds; the last is modelled by its contents.
\<close>

datatype IP = NilIP | Alias slice | Fresh "byte list"

text \<open>The address a reader of the result sees in the store \<open>h\<close>; \<open>None\<close> is \<open>nil\<close>.\<close>

definition ip_value :: "heap \<Rightarrow> IP \<Rightarrow> byte list option" where
  "ip_value h ip =
     (case ip of NilIP \<Rightarrow> None | Alias s \<Rightarrow> Some (slice_bytes h s) | Fresh bs \<Rightarrow> Some bs)"

definition v4InV6Prefix :: "byte list" where
  "v4InV6Prefix = [0, 0, 0, 0, 0, 0, 0, 0, 0, 0, 0xff, 0xff]"

text \<open>
  \<open>func (ip IP) To4() IP\<close> of Go's package \<open>net\<close>: a 4-byte address is returned as it
  is (the same slice), a 16-byte address that embeds an IPv4 address gives the window
  \<open>ip[12:16]\<close>, anything else \<open>nil\<close>.
\<close>

definition To4 :: "heap \<Rightarrow> slice \<Rightarrow> IP" where
  "To4 h ip =
     (if len ip = 4 then Alias ip
      else if len ip = 16 \<and> take 12 (slice_bytes h ip) = v4InV6Prefix
        then Alias (reslice ip 12 16)
      else NilIP)"

text \<open>
  \<open>func (ip IP) To16() IP\<close> of Go's package \<open>net\<close>: a 4-byte address is copied behind
  the prefix into a new 16-byte array, a 16-byte address is returned as it is (the same
  slice), anything else gives \<open>nil\<close>.
\<close>

definition To16 :: "heap \<Rightarrow> slice \<Rightarrow> IP" where
  "To16 h ip =
     (if len ip = 4 then Fresh (v4InV6Prefix @ slice_bytes h ip)
      else if len ip = 16 then Alias ip
      else NilIP)"

section \<open>The decoded fields and the errors\<close>

record OuterHeaderCreationFields =
  OuterHeaderCreationDescription :: "16 word"
  TEID :: "32 word"
  IPv4Address :: IP
  IPv6Address :: IP
  PortNumber :: "16 word"
  CTag :: "32 word"
  STag :: "32 word"

text \<open>The zero value \<open>&OuterHeaderCreationFields{}\<close>.\<close>

definition zero_fields :: OuterHeaderCreationFields where
  "zero_fields =
     \<lparr>OuterHeaderCreationDescription = 0, TEID = 0, IPv4Address = NilIP,
      IPv6Address = NilIP, PortNumber = 0, CTag = 0, STag = 0\<rparr>"

text \<open>
  The two kinds of error value the decoder builds: the one of \<open>errors.New\<close> and the one
  of \<open>fmt.Errorf\<close>, which carries the name of the field and the offset. \<open>Error\<close> is the
  message of the error value; \<open>fmt_d\<close> prints an offset as \<open>%d\<close> does.
\<close>

datatype error = PayloadTooShort | InsufficientBytes string nat

definition digit :: "nat \<Rightarrow> char" where
  "digit n = char_of (48 + n)"

fun fmt_d :: "nat \<Rightarrow> string" where
  "fmt_d n = (if n < 10 then [digit n] else fmt_d (n div 10) @ [digit (n mod 10)])"

fun Error :: "error \<Rightarrow> string" where
  "Error PayloadTooShort = ''OuterHeaderCreation payload too short: need at least 2 bytes''"
| "Error (InsufficientBytes name offset) =
     ''OuterHeaderCreation: insufficient bytes for '' @ name @ '' at offset '' @ fmt_d offset"

text \<open>An error return leaves the function at once.\<close>

definition and_then :: "error + 'a \<Rightarrow> ('a \<Rightarrow> error + 'b) \<Rightarrow> error + 'b" where
  "and_then r k = (case r of Inl e \<Rightarrow> Inl e | Inr v \<Rightarrow> k v)"

section \<open>ParseOuterHeaderCreation of pfcp/outer_header.go\<close>

text \<open>
  Each conditional block of the function is one definition, from the fields built so
  far and the offset to the error or to the new fields and offset. \<open>payload\<close> is the
  contents of the slice, \<open>l\<close> its length and \<open>oct5\<close> its first byte.
\<close>

type_synonym cursor = "OuterHeaderCreationFields \<times> nat"

text \<open>Lines 49 to 56.\<close>

definition parse_TEID :: "byte \<Rightarrow> byte list \<Rightarrow> nat \<Rightarrow> cursor \<Rightarrow> error + cursor" where
  "parse_TEID oct5 payload l = (\<lambda>(f, offset).
     if (oct5 AND 0x01) \<noteq> 0 \<or> (oct5 AND 0x02) \<noteq> 0 then
       if l < offset + 4 then Inl (InsufficientBytes ''TEID'' offset)
       else Inr (f\<lparr>TEID :=
                    push_bit 24 (ucast (payload ! offset)) OR
                    push_bit 16 (ucast (payload ! (offset + 1))) OR
                    push_bit 8 (ucast (payload ! (offset + 2))) OR
                    ucast (payload ! (offset + 3))\<rparr>, offset + 4)
     else Inr (f, offset))"

text \<open>Lines 59 to 65.\<close>

definition parse_IPv4 :: "heap \<Rightarrow> slice \<Rightarrow> byte \<Rightarrow> nat \<Rightarrow> cursor \<Rightarrow> error + cursor" where
  "parse_IPv4 h p oct5 l = (\<lambda>(f, offset).
     if (oct5 AND 0x01) \<noteq> 0 \<or> (oct5 AND 0x04) \<noteq> 0 \<or> (oct5 AND 0x10) \<noteq> 0 then
       if l < offset + 4 then Inl (InsufficientBytes ''IPv4'' offset)
       else Inr (f\<lparr>IPv4Address := To4 h (reslice p offset (offset + 4))\<rparr>, offset + 4)
     else Inr (f, offset))"

text \<open>Lines 68 to 74.\<close>

definition parse_IPv6 :: "heap \<Rightarrow> slice \<Rightarrow> byte \<Rightarrow> nat \<Rightarrow> cursor \<Rightarrow> error + cursor" where
  "parse_IPv6 h p oct5 l = (\<lambda>(f, offset).
     if (oct5 AND 0x02) \<noteq> 0 \<or> (oct5 AND 0x08) \<noteq> 0 \<or> (oct5 AND 0x20) \<noteq> 0 then
       if l < offset + 16 then Inl (InsufficientBytes ''IPv6'' offset)
       else Inr (f\<lparr>IPv6Address := To16 h (reslice p offset (offset + 16))\<rparr>, offset + 16)
     else Inr (f, offset))"

text \<open>Lines 77 to 83.\<close>

definition parse_Port :: "byte \<Rightarrow> byte list \<Rightarrow> nat \<Rightarrow> cursor \<Rightarrow> error + cursor" where
  "parse_Port oct5 payload l = (\<lambda>(f, offset).
     if (oct5 AND 0x04) \<noteq> 0 \<or> (oct5 AND 0x08) \<noteq> 0 then
       if l < offset + 2 then Inl (InsufficientBytes ''Port'' offset)
       else Inr (f\<lparr>PortNumber :=
                    push_bit 8 (ucast (payload ! offset)) OR
                    ucast (payload ! (offset + 1))\<rparr>, offset + 2)
     else Inr (f, offset))"

text \<open>Lines 86 to 92.\<close>

definition parse_CTag :: "byte \<Rightarrow> byte list \<Rightarrow> nat \<Rightarrow> cursor \<Rightarrow> error + cursor" where
  "parse_CTag oct5 payload l = (\<lambda>(f, offset).
     if (oct5 AND 0x40) \<noteq> 0 then
       if l < offset + 3 then Inl (InsufficientBytes ''C-TAG'' offset)
       else Inr (f\<lparr>CTag :=
                    push_bit 16 (ucast (payload ! offset)) OR
                    push_bit 8 (ucast (payload ! (offset + 1))) OR
                    ucast (payload ! (offset + 2))\<rparr>, offset + 3)
     else Inr (f, offset))"

text \<open>Lines 95 to 101.\<close>

definition parse_STag :: "byte \<Rightarrow> byte list \<Rightarrow> nat \<Rightarrow> cursor \<Rightarrow> error + cursor" where
  "parse_STag oct5 payload l = (\<lambda>(f, offset).
     if (oct5 AND 0x80) \<noteq> 0 then
       if l < offset + 3 then Inl (InsufficientBytes ''S-TAG'' offset)
       else Inr (f\<lparr>STag :=
                    push_bit 16 (ucast (payload ! offset)) OR
                    push_bit 8 (ucast (payload ! (offset + 1))) OR
                    ucast (payload ! (offset + 2))\<rparr>, offset + 3)
     else Inr (f, offset))"

text \<open>
  The function: the length check, the description, then the six blocks in the order of
  the source. The pointer it returns is to a struct of its own, so the result is the
  struct; \<open>Inl\<close> is the return of \<open>nil\<close> with an error.
\<close>

definition ParseOuterHeaderCreation :: "heap \<Rightarrow> slice \<Rightarrow> error + OuterHeaderCreationFields" where
  "ParseOuterHeaderCreation h p =
     (let payload = slice_bytes h p; l = len p in
      if l < 2 then Inl PayloadTooShort
      else
        let f = zero_fields\<lparr>OuterHeaderCreationDescription :=
                  push_bit 8 (ucast (payload ! 0)) OR ucast (payload ! 1)\<rparr>;
            offset = 2;
            oct5 = payload ! 0
        in and_then (parse_TEID oct5 payload l (f, offset)) (\<lambda>c.
           and_then (parse_IPv4 h p oct5 l c) (\<lambda>c.
           and_then (parse_IPv6 h p oct5 l c) (\<lambda>c.
           and_then (parse_Port oct5 payload l c) (\<lambda>c.
           and_then (parse_CTag oct5 payload l c) (\<lambda>c.
           and_then (parse_STag oct5 payload l c) (\<lambda>(f, offset).
           Inr f)))))))"

text \<open>Lines 107 to 110 and 113 to 116: the two accessors of the result.\<close>

definition HasTEID :: "OuterHeaderCreationFields \<Rightarrow> bool" where
  "HasTEID f =
     (let oct5 = (ucast (drop_bit 8 (OuterHeaderCreationDescription f AND 0xff00)) :: byte)
      in (oct5 AND 0x01) \<noteq> 0 \<or> (oct5 AND 0x02) \<noteq> 0)"

definition HasIPv4 :: "OuterHeaderCreationFields \<Rightarrow> bool" where
  "HasIPv4 f =
     (let oct5 = (ucast (drop_bit 8 (OuterHeaderCreationDescription f AND 0xff00)) :: byte)
      in (oct5 AND 0x01) \<noteq> 0 \<or> (oct5 AND 0x04) \<noteq> 0 \<or> (oct5 AND 0x10) \<noteq> 0)"

text \<open>
  What a reader of the result sees in the store \<open>h\<close>: the five scalars and the two
  addresses.
\<close>

definition field_values ::
  "heap \<Rightarrow> OuterHeaderCreationFields \<Rightarrow>
   16 word \<times> 32 word \<times> byte list option \<times> byte list option \<times> 16 word \<times> 32 word \<times> 32 word" where
  "field_values h f =
     (OuterHeaderCreationDescription f, TEID f, ip_value h (IPv4Address f),
      ip_value h (IPv6Address f), PortNumber f, CTag f, STag f)"

section \<open>ParseOuterHeaderCreation of the second copy (unnamed/part_000)\<close>

text \<open>
  Lines 25 to 98 of the second copy, written as one expression: every block first
  decides whether it returns the error, then gives the fields and the offset after it.
\<close>

definition ParseOuterHeaderCreation_part_000 ::
  "heap \<Rightarrow> slice \<Rightarrow> error + OuterHeaderCreationFields" where
  "ParseOuterHeaderCreation_part_000 h p =
     (let payload = slice_bytes h p; l = len p in
      if l < 2 then Inl PayloadTooShort
      else
        let f0 = zero_fields\<lparr>OuterHeaderCreationDescription :=
                   push_bit 8 (ucast (payload ! 0)) OR ucast (payload ! 1)\<rparr>;
            offset0 = 2;
            oct5 = payload ! 0;
            teid = ((oct5 AND 0x01) \<noteq> 0 \<or> (oct5 AND 0x02) \<noteq> 0)
        in
        if teid \<and> l < offset0 + 4 then Inl (InsufficientBytes ''TEID'' offset0)
        else
        let f1 = (if teid then f0\<lparr>TEID :=
                    push_bit 24 (ucast (payload ! offset0)) OR
                    push_bit 16 (ucast (payload ! (offset0 + 1))) OR
                    push_bit 8 (ucast (payload ! (offset0 + 2))) OR
                    ucast (payload ! (offset0 + 3))\<rparr> else f0);
            offset1 = (if teid then offset0 + 4 else offset0);
            ipv4 = ((oct5 AND 0x01) \<noteq> 0 \<or> (oct5 AND 0x04) \<noteq> 0 \<or> (oct5 AND 0x10) \<noteq> 0)
        in
        if ipv4 \<and> l < offset1 + 4 then Inl (InsufficientBytes ''IPv4'' offset1)
        else
        let f2 = (if ipv4
                  then f1\<lparr>IPv4Address := To4 h (reslice p offset1 (offset1 + 4))\<rparr> else f1);
            offset2 = (if ipv4 then offset1 + 4 else offset1);
            ipv6 = ((oct5 AND 0x02) \<noteq> 0 \<or> (oct5 AND 0x08) \<noteq> 0 \<or> (oct5 AND 0x20) \<noteq> 0)
        in
        if ipv6 \<and> l < offset2 + 16 then Inl (InsufficientBytes ''IPv6'' offset2)
        else
        let f3 = (if ipv6
                  then f2\<lparr>IPv6Address := To16 h (reslice p offset2 (offset2 + 16))\<rparr> else f2);
            offset3 = (if ipv6 then offset2 + 16 else offset2);
            port = ((oct5 AND 0x04) \<noteq> 0 \<or> (oct5 AND 0x08) \<noteq> 0)
        in
        if port \<and> l < offset3 + 2 then Inl (InsufficientBytes ''Port'' offset3)
        else
        let f4 = (if port then f3\<lparr>PortNumber :=
                    push_bit 8 (ucast (payload ! offset3)) OR
                    ucast (payload ! (offset3 + 1))\<rparr> else f3);
            offset4 = (if port then offset3 + 2 else offset3);
            ctag = ((oct5 AND 0x40) \<noteq> 0)
        in
        if ctag \<and> l < offset4 + 3 then Inl (InsufficientBytes ''C-TAG'' offset4)
        else
        let f5 = (if ctag then f4\<lparr>CTag :=
                    push_bit 16 (ucast (payload ! offset4)) OR
                    push_bit 8 (ucast (payload ! (offset4 + 1))) OR
                    ucast (payload ! (offset4 + 2))\<rparr> else f4);
            offset5 = (if ctag then offset4 + 3 else offset4);
            stag = ((oct5 AND 0x80) \<noteq> 0)
        in
        if stag \<and> l < offset5 + 3 then Inl (InsufficientBytes ''S-TAG'' offset5)
        else
        let f6 = (if stag then f5\<lparr>STag :=
                    push_bit 16 (ucast (payload ! offset5)) OR
                    push_bit 8 (ucast (payload ! (offset5 + 1))) OR
                    ucast (payload ! (offset5 + 2))\<rparr> else f5)
        in Inr f6)"

section \<open>The layout, in the words of the specification\<close>

text \<open>
  Section 4.1 numbers the bits of the flag octet from 1, the least significant, and
  gives for each sub-field the bits that select it.
\<close>

definition flag :: "byte \<Rightarrow> nat \<Rightarrow> bool" where
  "flag c k = bit c (k - 1)"

definition present_TEID :: "byte \<Rightarrow> bool" where
  "present_TEID c = (flag c 1 \<or> flag c 2)"

definition present_IPv4 :: "byte \<Rightarrow> bool" where
  "present_IPv4 c = (flag c 1 \<or> flag c 3 \<or> flag c 5)"

definition present_IPv6 :: "byte \<Rightarrow> bool" where
  "present_IPv6 c = (flag c 2 \<or> flag c 4 \<or> flag c 6)"

definition present_Port :: "byte \<Rightarrow> bool" where
  "present_Port c = (flag c 3 \<or> flag c 4)"

definition present_CTag :: "byte \<Rightarrow> bool" where
  "present_CTag c = flag c 7"

definition present_STag :: "byte \<Rightarrow> bool" where
  "present_STag c = flag c 8"

text \<open>
  Section 4.2: the cursor starts at 2 and every selected sub-field, in the order TEID,
  IPv4, IPv6, Port, C-TAG, S-TAG, moves it by its width 4, 4, 16, 2, 3, 3, once.
\<close>

definition off_TEID :: "byte \<Rightarrow> nat" where
  "off_TEID c = 2"

definition off_IPv4 :: "byte \<Rightarrow> nat" where
  "off_IPv4 c = off_TEID c + (if present_TEID c then 4 else 0)"

definition off_IPv6 :: "byte \<Rightarrow> nat" where
  "off_IPv6 c = off_IPv4 c + (if present_IPv4 c then 4 else 0)"

definition off_Port :: "byte \<Rightarrow> nat" where
  "off_Port c = off_IPv6 c + (if present_IPv6 c then 16 else 0)"

definition off_CTag :: "byte \<Rightarrow> nat" where
  "off_CTag c = off_Port c + (if present_Port c then 2 else 0)"

definition off_STag :: "byte \<Rightarrow> nat" where
  "off_STag c = off_CTag c + (if present_CTag c then 3 else 0)"

definition required :: "byte \<Rightarrow> nat" where
  "required c = off_STag c + (if present_STag c then 3 else 0)"

text \<open>The selected sub-fields in their order: name, offset, width.\<close>

definition fields_at :: "byte \<Rightarrow> (string \<times> nat \<times> nat) list" where
  "fields_at c =
     (if present_TEID c then [(''TEID'', off_TEID c, 4)] else []) @
     (if present_IPv4 c then [(''IPv4'', off_IPv4 c, 4)] else []) @
     (if present_IPv6 c then [(''IPv6'', off_IPv6 c, 16)] else []) @
     (if present_Port c then [(''Port'', off_Port c, 2)] else []) @
     (if present_CTag c then [(''C-TAG'', off_CTag c, 3)] else []) @
     (if present_STag c then [(''S-TAG'', off_STag c, 3)] else [])"

text \<open>The first sub-field that does not fit into \<open>l\<close> bytes.\<close>

definition first_short :: "nat \<Rightarrow> (string \<times> nat \<times> nat) list \<Rightarrow> (string \<times> nat \<times> nat) option" where
  "first_short l fs = find (\<lambda>(name, offset, w). l < offset + w) fs"

text \<open>The number that a byte sequence denotes in network byte order.\<close>

definition be_value :: "byte list \<Rightarrow> nat" where
  "be_value bs = foldl (\<lambda>n b. 256 * n + unat b) 0 bs"

text \<open>The \<open>w\<close> bytes of \<open>b\<close> from index \<open>i\<close> on.\<close>

definition window :: "byte list \<Rightarrow> nat \<Rightarrow> nat \<Rightarrow> byte list" where
  "window b i w = take w (drop i b)"

text \<open>
  The result for a payload \<open>b\<close>, held by the slice \<open>p\<close>, that is long enough: every
  selected sub-field is the value of its window, every other one is left zero or nil.
\<close>

definition layout_result :: "slice \<Rightarrow> byte list \<Rightarrow> OuterHeaderCreationFields" where
  "layout_result p b =
     (let c = b ! 0 in
      \<lparr>OuterHeaderCreationDescription = of_nat (be_value (window b 0 2)),
       TEID = (if present_TEID c then of_nat (be_value (window b (off_TEID c) 4)) else 0),
       IPv4Address =
         (if present_IPv4 c then Alias (reslice p (off_IPv4 c) (off_IPv4 c + 4)) else NilIP),
       IPv6Address =
         (if present_IPv6 c then Alias (reslice p (off_IPv6 c) (off_IPv6 c + 16)) else NilIP),
       PortNumber = (if present_Port c then of_nat (be_value (window b (off_Port c) 2)) else 0),
       CTag = (if present_CTag c then of_nat (be_value (window b (off_CTag c) 3)) else 0),
       STag = (if present_STag c then of_nat (be_value (window b (off_STag c) 3)) else 0)\<rparr>)"

text \<open>The same result as a reader sees it: the values alone.\<close>

definition layout_values ::
  "byte list \<Rightarrow>
   16 word \<times> 32 word \<times> byte list option \<times> byte list option \<times> 16 word \<times> 32 word \<times> 32 word" where
  "layout_values b =
     (let c = b ! 0 in
      (of_nat (be_value (window b 0 2)),
       (if present_TEID c then of_nat (be_value (window b (off_TEID c) 4)) else 0),
       (if present_IPv4 c then Some (window b (off_IPv4 c) 4) else None),
       (if present_IPv6 c then Some (window b (off_IPv6 c) 16) else None),
       (if present_Port c then of_nat (be_value (window b (off_Port c) 2)) else 0),
       (if present_CTag c then of_nat (be_value (window b (off_CTag c) 3)) else 0),
       (if present_STag c then of_nat (be_value (window b (off_STag c) 3)) else 0)))"

section \<open>Concrete payloads\<close>

text \<open>
  A store whose array 0 holds the bytes \<open>b\<close>, and the slice of that whole array: a
  payload as a test builds it with \<open>[]byte{...}\<close>.
\<close>

definition store_of :: "byte list \<Rightarrow> heap" where
  "store_of b = (\<lambda>a. if a = 0 then b else [])"

definition whole :: "byte list \<Rightarrow> slice" where
  "whole b = \<lparr>arr = 0, off = 0, len = length b\<rparr>"

section \<open>Predicates of the proofs\<close>

text \<open>Both tags of a result fit into 24 bits.\<close>

definition tags_24 :: "OuterHeaderCreationFields \<Rightarrow> bool" where
  "tags_24 f = (CTag f < 2 ^ 24 \<and> STag f < 2 ^ 24)"

section \<open>Flag bits and big-endian reads\<close>

lemma mask_01: "((c::byte) AND 0x01) \<noteq> 0 \<longleftrightarrow> flag c 1"
  using and_exp_eq_0_iff_not_bit [of c 0] by (simp add: flag_def)
lemma mask_02: "((c::byte) AND 0x02) \<noteq> 0 \<longleftrightarrow> flag c 2"
  using and_exp_eq_0_iff_not_bit [of c 1] by (simp add: flag_def)
lemma mask_04: "((c::byte) AND 0x04) \<noteq> 0 \<longleftrightarrow> flag c 3"
  using and_exp_eq_0_iff_not_bit [of c 2] by (simp add: flag_def)
lemma mask_08: "((c::byte) AND 0x08) \<noteq> 0 \<longleftrightarrow> flag c 4"
  using and_exp_eq_0_iff_not_bit [of c 3] by (simp add: flag_def)
lemma mask_10: "((c::byte) AND 0x10) \<noteq> 0 \<longleftrightarrow> flag c 5"
  using and_exp_eq_0_iff_not_bit [of c 4] by (simp add: flag_def)
lemma mask_20: "((c::byte) AND 0x20) \<noteq> 0 \<longleftrightarrow> flag c 6"
  using and_exp_eq_0_iff_not_bit [of c 5] by (simp add: flag_def)
lemma mask_40: "((c::byte) AND 0x40) \<noteq> 0 \<longleftrightarrow> flag c 7"
  using and_exp_eq_0_iff_not_bit [of c 6] by (simp add: flag_def)
lemma mask_80: "((c::byte) AND 0x80) \<noteq> 0 \<longleftrightarrow> flag c 8"
  using and_exp_eq_0_iff_not_bit [of c 7] by (simp add: flag_def)

lemmas mask_flag = mask_01 mask_02 mask_04 mask_08 mask_10 mask_20 mask_40 mask_80

lemma or_plus8: "push_bit 8 (x::'a::len word) OR ucast (b::byte) = push_bit 8 x + ucast b"
  by (rule disjunctive_add [symmetric]) (auto simp: bit_simps dest: bit_imp_le_length)

lemma or_plus16: "push_bit 16 (x::'a::len word) OR (push_bit 8 (ucast (b::byte)) + ucast (c::byte)) = push_bit 16 x + (push_bit 8 (ucast b) + ucast c)"
  unfolding or_plus8 [symmetric]
  by (rule disjunctive_add [symmetric]) (auto simp: bit_simps dest: bit_imp_le_length)

lemma or_plus24: "push_bit 24 (x::'a::len word) OR (push_bit 16 (ucast (a::byte)) + (push_bit 8 (ucast (b::byte)) + ucast (c::byte))) 
    = push_bit 24 x + (push_bit 16 (ucast (a::byte)) + (push_bit 8 (ucast b) + ucast c))"
proof -
  have e: "push_bit 16 (ucast a) + (push_bit 8 (ucast b) + ucast c)
       = (push_bit 16 (ucast a) OR (push_bit 8 (ucast b) OR ucast c) :: 'a word)"
    by (simp only: or_plus8 or_plus16)
  show ?thesis
    unfolding e
    by (rule disjunctive_add [symmetric]) (auto simp: bit_simps dest: bit_imp_le_length)
qed

lemma be16: "(push_bit 8 (ucast (a::byte)) OR ucast (b::byte) :: 16 word) = of_nat (be_value [a, b])"
  by (simp only: or_plus8) (simp add: be_value_def push_bit_eq_mult)

lemma be24: "(push_bit 16 (ucast (a::byte)) OR push_bit 8 (ucast (b::byte)) OR ucast (c::byte) :: 32 word) = of_nat (be_value [a, b, c])"
  by (simp only: or_plus16 or_plus8) (simp add: be_value_def push_bit_eq_mult)

lemma be32: "(push_bit 24 (ucast (a::byte)) OR push_bit 16 (ucast (b::byte)) OR push_bit 8 (ucast (c::byte)) OR ucast (d::byte) :: 32 word) = of_nat (be_value [a, b, c, d])"
  by (simp only: or_plus24 or_plus16 or_plus8) (simp add: be_value_def push_bit_eq_mult)

lemma be_value_less: "be_value bs < 256 ^ length bs"
proof (induction bs rule: rev_induct)
  case Nil show ?case by (simp add: be_value_def)
next
  case (snoc b bs)
  have "unat b < 256" using unsigned_less [of b] by simp
  with snoc show ?case by (simp add: be_value_def)
qed

lemma window2: "i + 2 \<le> length b \<Longrightarrow> window b i 2 = [b ! i, b ! (i + 1)]"
  by (simp add: window_def take_Suc_conv_app_nth numeral_2_eq_2)

lemma window3: "i + 3 \<le> length b \<Longrightarrow> window b i 3 = [b ! i, b ! (i + 1), b ! (i + 2)]"
  by (simp add: window_def take_Suc_conv_app_nth numeral_3_eq_3 add.commute)

lemma window4: "i + 4 \<le> length b \<Longrightarrow> window b i 4 = [b ! i, b ! (i + 1), b ! (i + 2), b ! (i + 3)]"
  by (simp add: window_def take_Suc_conv_app_nth eval_nat_numeral add.commute)

lemma read16: "i + 2 \<le> length b \<Longrightarrow>
  (push_bit 8 (ucast (b ! i)) OR ucast (b ! (i + 1)) :: 16 word) = of_nat (be_value (window b i 2))"
  by (simp only: window2 be16)

lemma read24: "i + 3 \<le> length b \<Longrightarrow>
  (push_bit 16 (ucast (b ! i)) OR push_bit 8 (ucast (b ! (i + 1))) OR ucast (b ! (i + 2)) :: 32 word) = of_nat (be_value (window b i 3))"
  by (simp only: window3 be24)

lemma read32: "i + 4 \<le> length b \<Longrightarrow>
  (push_bit 24 (ucast (b ! i)) OR push_bit 16 (ucast (b ! (i + 1))) OR push_bit 8 (ucast (b ! (i + 2))) OR ucast (b ! (i + 3)) :: 32 word) = of_nat (be_value (window b i 4))"
  by (simp only: window4 be32)

section \<open>The decoder follows the layout\<close>

lemma length_slice_bytes: "valid_slice h p \<Longrightarrow> length (slice_bytes h p) = len p"
  by (simp add: valid_slice_def slice_bytes_def)

lemma To4_reslice: "To4 h (reslice p i (i + 4)) = Alias (reslice p i (i + 4))"
  by (simp add: To4_def reslice_def)

lemma To16_reslice: "To16 h (reslice p i (i + 16)) = Alias (reslice p i (i + 16))"
  by (simp add: To16_def reslice_def)

lemma read16_Suc: "i + 2 \<le> length b \<Longrightarrow>
  (push_bit 8 (ucast (b ! i)) OR ucast (b ! Suc i) :: 16 word) = of_nat (be_value (window b i 2))"
  using read16 [of i b] by simp

lemma read24_Suc: "i + 3 \<le> length b \<Longrightarrow>
  (push_bit 16 (ucast (b ! i)) OR push_bit 8 (ucast (b ! Suc i)) OR ucast (b ! Suc (Suc i)) :: 32 word) = of_nat (be_value (window b i 3))"
  using read24 [of i b] by simp

lemma read32_Suc: "i + 4 \<le> length b \<Longrightarrow>
  (push_bit 24 (ucast (b ! i)) OR push_bit 16 (ucast (b ! Suc i)) OR push_bit 8 (ucast (b ! Suc (Suc i))) OR ucast (b ! (i + 3)) :: 32 word) = of_nat (be_value (window b i 4))"
  using read32 [of i b] by simp

lemma parse_TEID_eq:
  "length b = l \<Longrightarrow> parse_TEID c b l (f, i) =
     (if present_TEID c
      then if l < i + 4 then Inl (InsufficientBytes ''TEID'' i)
           else Inr (f\<lparr>TEID := of_nat (be_value (window b i 4))\<rparr>, i + 4)
      else Inr (f, i))"
  by (simp add: parse_TEID_def mask_flag present_TEID_def read32_Suc)

lemma parse_IPv4_eq:
  "parse_IPv4 h p c l (f, i) =
     (if present_IPv4 c
      then if l < i + 4 then Inl (InsufficientBytes ''IPv4'' i)
           else Inr (f\<lparr>IPv4Address := Alias (reslice p i (i + 4))\<rparr>, i + 4)
      else Inr (f, i))"
  by (simp add: parse_IPv4_def mask_flag present_IPv4_def To4_reslice)

lemma parse_IPv6_eq:
  "parse_IPv6 h p c l (f, i) =
     (if present_IPv6 c
      then if l < i + 16 then Inl (InsufficientBytes ''IPv6'' i)
           else Inr (f\<lparr>IPv6Address := Alias (reslice p i (i + 16))\<rparr>, i + 16)
      else Inr (f, i))"
  by (simp add: parse_IPv6_def mask_flag present_IPv6_def To16_reslice)

lemma parse_Port_eq:
  "length b = l \<Longrightarrow> parse_Port c b l (f, i) =
     (if present_Port c
      then if l < i + 2 then Inl (InsufficientBytes ''Port'' i)
           else Inr (f\<lparr>PortNumber := of_nat (be_value (window b i 2))\<rparr>, i + 2)
      else Inr (f, i))"
  by (simp add: parse_Port_def mask_flag present_Port_def read16_Suc)

lemma parse_CTag_eq:
  "length b = l \<Longrightarrow> parse_CTag c b l (f, i) =
     (if present_CTag c
      then if l < i + 3 then Inl (InsufficientBytes ''C-TAG'' i)
           else Inr (f\<lparr>CTag := of_nat (be_value (window b i 3))\<rparr>, i + 3)
      else Inr (f, i))"
  by (simp add: parse_CTag_def mask_flag present_CTag_def read24_Suc)

lemma parse_STag_eq:
  "length b = l \<Longrightarrow> parse_STag c b l (f, i) =
     (if present_STag c
      then if l < i + 3 then Inl (InsufficientBytes ''S-TAG'' i)
           else Inr (f\<lparr>STag := of_nat (be_value (window b i 3))\<rparr>, i + 3)
      else Inr (f, i))"
  by (simp add: parse_STag_def mask_flag present_STag_def read24_Suc)

lemmas block_eqs = parse_TEID_eq parse_IPv4_eq parse_IPv6_eq parse_Port_eq parse_CTag_eq parse_STag_eq

lemma and_then_simps:
  "and_then (Inl e) k = Inl e" "and_then (Inr v) k = k v"
  by (simp_all add: and_then_def)

lemmas off_defs = off_TEID_def off_IPv4_def off_IPv6_def off_Port_def off_CTag_def off_STag_def

lemma Parse_layout:
  assumes "valid_slice h p"
  shows "ParseOuterHeaderCreation h p =
     (if len p < 2 then Inl PayloadTooShort
      else case first_short (len p) (fields_at (slice_bytes h p ! 0)) of
             Some (name, offset, w) \<Rightarrow> Inl (InsufficientBytes name offset)
           | None \<Rightarrow> Inr (layout_result p (slice_bytes h p)))"
proof (cases "len p < 2")
  case True
  then show ?thesis by (simp add: ParseOuterHeaderCreation_def)
next
  case False
  define b where "b = slice_bytes h p"
  define c where "c = b ! 0"
  have l: "length b = len p" unfolding b_def using assms by (rule length_slice_bytes)
  have d: "(push_bit 8 (ucast c) OR ucast (b ! Suc 0) :: 16 word) = of_nat (be_value (window b 0 2))"
    using read16 [of 0 b] False l by (simp add: c_def)
  show ?thesis
    using False l
    unfolding ParseOuterHeaderCreation_def Let_def b_def [symmetric] c_def [symmetric] layout_result_def
    by (cases "present_TEID c"; cases "present_IPv4 c"; cases "present_IPv6 c";
        cases "present_Port c"; cases "present_CTag c"; cases "present_STag c";
        simp add: block_eqs and_then_simps first_short_def fields_at_def off_defs zero_fields_def d)
qed

section \<open>Consequences of the layout\<close>

lemma window_slice:
  "valid_slice h p \<Longrightarrow> j \<le> len p \<Longrightarrow>
   slice_bytes h (reslice p i j) = window (slice_bytes h p) i (j - i)"
  by (simp add: slice_bytes_def reslice_def window_def drop_take min_def add.commute)

lemma required_ge2: "2 \<le> required c"
  by (simp add: required_def off_defs)

lemma first_short_None:
  "2 \<le> l \<Longrightarrow> first_short l (fields_at c) = None \<longleftrightarrow> required c \<le> l"
  by (cases "present_TEID c"; cases "present_IPv4 c"; cases "present_IPv6 c";
      cases "present_Port c"; cases "present_CTag c"; cases "present_STag c";
      simp add: first_short_def fields_at_def required_def off_defs)

lemma Parse_Inr:
  assumes "valid_slice h p" and "ParseOuterHeaderCreation h p = Inr f"
  shows "2 \<le> len p" and "required (slice_bytes h p ! 0) \<le> len p"
    and "f = layout_result p (slice_bytes h p)"
  using assms(2) first_short_None [of "len p" "slice_bytes h p ! 0"]
  unfolding Parse_layout [OF assms(1)]
  by (auto split: if_splits option.splits)

lemma Parse_success:
  assumes "valid_slice h p" and "2 \<le> len p" and "required (slice_bytes h p ! 0) \<le> len p"
  shows "ParseOuterHeaderCreation h p = Inr (layout_result p (slice_bytes h p))"
  using assms(2,3) first_short_None [of "len p" "slice_bytes h p ! 0"]
  unfolding Parse_layout [OF assms(1)]
  by (auto split: if_splits option.splits)

lemma Parse_short:
  assumes "valid_slice h p" and "2 \<le> len p"
    and "first_short (len p) (fields_at (slice_bytes h p ! 0)) = Some (name, i, w)"
  shows "ParseOuterHeaderCreation h p = Inl (InsufficientBytes name i)"
  using assms(2,3) unfolding Parse_layout [OF assms(1)] by simp

lemma layout_result_values:
  assumes "valid_slice h p" and "required (slice_bytes h p ! 0) \<le> len p"
  shows "field_values h (layout_result p (slice_bytes h p)) = layout_values (slice_bytes h p)"
  using assms
  unfolding field_values_def layout_result_def layout_values_def Let_def
  by (cases "present_TEID (slice_bytes h p ! 0)"; cases "present_IPv4 (slice_bytes h p ! 0)"; 
      cases "present_IPv6 (slice_bytes h p ! 0)"; cases "present_Port (slice_bytes h p ! 0)"; 
      cases "present_CTag (slice_bytes h p ! 0)"; cases "present_STag (slice_bytes h p ! 0)";
      simp add: ip_value_def window_slice required_def off_defs)

lemma window_append: "i + w \<le> length b \<Longrightarrow> window (b @ e) i w = window b i w"
  by (simp add: window_def)

lemma window_take: "i + w \<le> n \<Longrightarrow> window (take n b) i w = window b i w"
  by (simp add: window_def drop_take min_def)

lemma layout_values_append:
  assumes "2 \<le> length b" and "required (b ! 0) \<le> length b"
  shows "layout_values (b @ e) = layout_values b"
proof -
  have c: "(b @ e) ! 0 = b ! 0" using assms(1) by (cases b) auto
  show ?thesis
    using assms
    unfolding layout_values_def Let_def c
    by (cases "present_TEID (b ! 0)"; cases "present_IPv4 (b ! 0)"; 
      cases "present_IPv6 (b ! 0)"; cases "present_Port (b ! 0)"; 
      cases "present_CTag (b ! 0)"; cases "present_STag (b ! 0)";
      simp add: window_append required_def off_defs)
qed

lemma layout_values_take:
  assumes "2 \<le> n" and "required (b ! 0) \<le> n"
  shows "layout_values (take n b) = layout_values b"
proof -
  have c: "take n b ! 0 = b ! 0" using assms(1) by simp
  show ?thesis
    using assms
    unfolding layout_values_def Let_def c
    by (cases "present_TEID (b ! 0)"; cases "present_IPv4 (b ! 0)"; 
      cases "present_IPv6 (b ! 0)"; cases "present_Port (b ! 0)"; 
      cases "present_CTag (b ! 0)"; cases "present_STag (b ! 0)";
      simp add: window_take required_def off_defs)
qed

lemma valid_truncate: "valid_slice h p \<Longrightarrow> n \<le> len p \<Longrightarrow> valid_slice h (reslice p 0 n)"
  by (simp add: valid_slice_def reslice_def)

lemma bytes_truncate: "valid_slice h p \<Longrightarrow> n \<le> len p \<Longrightarrow> slice_bytes h (reslice p 0 n) = take n (slice_bytes h p)"
  by (simp add: window_slice window_def)

lemma len_truncate: "len (reslice p 0 n) = n"
  by (simp add: reslice_def)

section \<open>Concrete payloads, evaluated\<close>

lemmas eval_defs = ParseOuterHeaderCreation_def slice_bytes_def store_of_def whole_def
  parse_TEID_def parse_IPv4_def parse_IPv6_def parse_Port_def parse_CTag_def parse_STag_def
  and_then_def zero_fields_def To4_def To16_def reslice_def valid_slice_def

lemma valid_whole: "valid_slice (store_of b) (whole b)"
  by (simp add: valid_slice_def store_of_def whole_def)

lemma bytes_whole: "slice_bytes (store_of b) (whole b) = b"
  by (simp add: slice_bytes_def store_of_def whole_def)

lemma len_whole: "len (whole b) = length b"
  by (simp add: whole_def)

section \<open>The tags through the six blocks\<close>

lemma be24_less:
  "push_bit 16 (ucast (a::byte)) OR push_bit 8 (ucast (b::byte)) OR (ucast (c::byte) :: 32 word)
     < 2 ^ 24"
proof -
  have "be_value [a, b, c] < 2 ^ 24" using be_value_less [of "[a, b, c]"] by simp
  then show ?thesis
    unfolding be24 by (simp add: word_less_nat_alt unat_of_nat take_bit_nat_eq_self)
qed

lemma tags_24_TEID: "parse_TEID c b l (f, i) = Inr (f', i') \<Longrightarrow> tags_24 f \<Longrightarrow> tags_24 f'"
  by (auto simp: parse_TEID_def tags_24_def split: if_splits)

lemma tags_24_IPv4: "parse_IPv4 h p c l (f, i) = Inr (f', i') \<Longrightarrow> tags_24 f \<Longrightarrow> tags_24 f'"
  by (auto simp: parse_IPv4_def tags_24_def split: if_splits)

lemma tags_24_IPv6: "parse_IPv6 h p c l (f, i) = Inr (f', i') \<Longrightarrow> tags_24 f \<Longrightarrow> tags_24 f'"
  by (auto simp: parse_IPv6_def tags_24_def split: if_splits)

lemma tags_24_Port: "parse_Port c b l (f, i) = Inr (f', i') \<Longrightarrow> tags_24 f \<Longrightarrow> tags_24 f'"
  by (auto simp: parse_Port_def tags_24_def split: if_splits)

lemma tags_24_CTag: "parse_CTag c b l (f, i) = Inr (f', i') \<Longrightarrow> tags_24 f \<Longrightarrow> tags_24 f'"
  using be24_less by (auto simp: parse_CTag_def tags_24_def split: if_splits)

lemma tags_24_STag: "parse_STag c b l (f, i) = Inr (f', i') \<Longrightarrow> tags_24 f \<Longrightarrow> tags_24 f'"
  using be24_less by (auto simp: parse_STag_def tags_24_def split: if_splits)

lemma and_then_Inr: "and_then r k = Inr y \<Longrightarrow> \<exists>v. r = Inr v \<and> k v = Inr y"
  by (cases r) (simp_all add: and_then_def)

section \<open>Small facts for the claims\<close>

lemma step_eq:
  "and_then (if c then (if s then Inl e else Inr (f1, o1)) else Inr (f0, o0)) k =
     (if c \<and> s then Inl e else k (if c then f1 else f0, if c then o1 else o0))"
  by (simp add: and_then_def)

lemma fmt_d_2: "fmt_d 2 = ''2''"
  by code_simp

lemma fields_at_01: "fields_at (0x01 :: byte) = [(''TEID'', 2, 4), (''IPv4'', 6, 4)]"
  by (simp add: fields_at_def present_TEID_def present_IPv4_def present_IPv6_def present_Port_def
          present_CTag_def present_STag_def flag_def off_defs)

lemma Parse_succeeds_iff:
  assumes "valid_slice h p"
  shows "(\<exists>f. ParseOuterHeaderCreation h p = Inr f) \<longleftrightarrow>
         2 \<le> len p \<and> required (slice_bytes h p ! 0) \<le> len p"
  using Parse_Inr(1,2) [OF assms] Parse_success [OF assms] by blast

lemmas present_defs = present_TEID_def present_IPv4_def present_IPv6_def present_Port_def
  present_CTag_def present_STag_def

section \<open>The description and the accessors; writes to the payload\<close>

lemma hi_bit:
  "bit (ucast (drop_bit 8 ((d :: 16 word) AND 0xff00)) :: byte) n \<longleftrightarrow> n < 8 \<and> bit d (n + 8)"
proof -
  have m: "(0xff00 :: 16 word) = push_bit 8 (mask 8)"
    by (simp add: mask_eq_exp_minus_1 push_bit_eq_mult)
  show ?thesis
    unfolding m
    by (auto simp: bit_simps add.commute dest: bit_imp_le_length)
qed

lemma desc_bit:
  "n < 8 \<Longrightarrow> bit (push_bit 8 (ucast (a::byte)) OR ucast (b::byte) :: 16 word) (n + 8) \<longleftrightarrow> bit a n"
  by (auto simp: bit_simps dest: bit_imp_le_length)

lemma desc_hi:
  "(ucast (drop_bit 8 (push_bit 8 (ucast (a::byte)) OR ucast (b::byte) :: 16 word)) :: byte) = a"
  by (rule bit_word_eqI) (auto simp: bit_simps dest: bit_imp_le_length)

lemma HasTEID_bits:
  "HasTEID g \<longleftrightarrow>
     bit (OuterHeaderCreationDescription g) 8 \<or> bit (OuterHeaderCreationDescription g) 9"
  using hi_bit [of "OuterHeaderCreationDescription g" 0]
    hi_bit [of "OuterHeaderCreationDescription g" 1]
  by (simp add: HasTEID_def Let_def mask_flag flag_def)

lemma HasIPv4_bits:
  "HasIPv4 g \<longleftrightarrow>
     bit (OuterHeaderCreationDescription g) 8 \<or> bit (OuterHeaderCreationDescription g) 10 \<or>
     bit (OuterHeaderCreationDescription g) 12"
  using hi_bit [of "OuterHeaderCreationDescription g" 0]
    hi_bit [of "OuterHeaderCreationDescription g" 2]
    hi_bit [of "OuterHeaderCreationDescription g" 4]
  by (simp add: HasIPv4_def Let_def mask_flag flag_def)

lemma Parse_description:
  assumes "valid_slice h p" and "ParseOuterHeaderCreation h p = Inr f"
  shows "OuterHeaderCreationDescription f =
           push_bit 8 (ucast (slice_bytes h p ! 0)) OR ucast (slice_bytes h p ! 1)"
proof -
  note P = Parse_Inr [OF assms]
  have "2 \<le> length (slice_bytes h p)" using P(1) length_slice_bytes [OF assms(1)] by simp
  from read16 [of 0 "slice_bytes h p"] this P(3) show ?thesis
    by (simp add: layout_result_def Let_def)
qed

lemma off_IPv4_fits: "present_IPv4 c \<Longrightarrow> off_IPv4 c + 4 \<le> required c"
  by (simp add: required_def off_defs)

lemma off_IPv6_fits: "present_IPv6 c \<Longrightarrow> off_IPv6 c + 16 \<le> required c"
  by (simp add: required_def off_defs)

lemma store_seen:
  assumes "valid_slice h p" and "i + w \<le> len p" and "k < w"
  shows "slice_bytes (slice_store h p (i + k) v) (reslice p i (i + w)) =
         (window (slice_bytes h p) i w)[k := v]"
proof -
  have "slice_bytes (slice_store h p (i + k) v) (reslice p i (i + w)) =
        take w (drop (off p + i) ((h (arr p))[off p + i + k := v]))"
    by (simp add: slice_bytes_def slice_store_def reslice_def add.assoc)
  also have "\<dots> = (take w (drop (off p + i) (h (arr p))))[k := v]"
    by (simp add: drop_update_swap take_update_swap)
  also have "take w (drop (off p + i) (h (arr p))) = window (slice_bytes h p) i w"
    using window_slice [OF assms(1), of "i + w" i] assms(2)
    by (simp add: slice_bytes_def reslice_def)
  finally show ?thesis .
qed

section \<open>The claims\<close>

text \<open>
  C1. The payload C1 00 | 00 00 00 0F | 0A 01 02 03 | AA BB CC | DD EE FF decodes to the
  description 0xC100, TEID 15, IPv4 address 10.1.2.3, no IPv6 address, port 0, C-TAG
  0xAABBCC and S-TAG 0xDDEEFF. In general a successful decode has consumed, in the order
  TEID, IPv4, IPv6, Port, C-TAG, S-TAG, the widths 4, 4, 16, 2, 3, 3 of the selected
  sub-fields, and every selected sub-field is the big-endian value of its window.
\<close>

theorem C1_scenario:
  assumes "valid_slice h p"
  shows "(slice_bytes h p =
            [0xC1, 0x00, 0x00, 0x00, 0x00, 0x0F, 0x0A, 0x01, 0x02, 0x03,
             0xAA, 0xBB, 0xCC, 0xDD, 0xEE, 0xFF] \<longrightarrow>
          (\<exists>f. ParseOuterHeaderCreation h p = Inr f \<and>
               field_values h f =
                 (0xC100, 15, Some [10, 1, 2, 3], None, 0, 0xAABBCC, 0xDDEEFF))) \<and>
         (\<forall>f. ParseOuterHeaderCreation h p = Inr f \<longrightarrow>
               required (slice_bytes h p ! 0) \<le> len p \<and>
               field_values h f = layout_values (slice_bytes h p))"
proof (intro conjI impI allI)
  fix f assume "ParseOuterHeaderCreation h p = Inr f"
  from Parse_Inr [OF assms this]
  show "required (slice_bytes h p ! 0) \<le> len p"
    and "field_values h f = layout_values (slice_bytes h p)"
    by (simp_all add: layout_result_values [OF assms])
next
  let ?b = "[0xC1, 0x00, 0x00, 0x00, 0x00, 0x0F, 0x0A, 0x01, 0x02, 0x03,
             0xAA, 0xBB, 0xCC, 0xDD, 0xEE, 0xFF] :: byte list"
  assume b: "slice_bytes h p = ?b"
  have l: "len p = 16" using length_slice_bytes [OF assms] b by simp
  have c: "present_TEID 0xC1" "present_IPv4 0xC1" "\<not> present_IPv6 0xC1" "\<not> present_Port 0xC1"
     "present_CTag 0xC1" "present_STag 0xC1"
    by (simp_all add: present_TEID_def present_IPv4_def present_IPv6_def present_Port_def
          present_CTag_def present_STag_def flag_def)
  have r: "required (slice_bytes h p ! 0) \<le> len p"
    by (simp add: b l required_def off_defs c)
  have "ParseOuterHeaderCreation h p = Inr (layout_result p (slice_bytes h p))"
    using l r by (intro Parse_success [OF assms]) simp_all
  moreover have "layout_values ?b = (0xC100, 15, Some [10, 1, 2, 3], None, 0, 0xAABBCC, 0xDDEEFF)"
    by (simp add: layout_values_def c off_defs window_def be_value_def)
  ultimately show "\<exists>f. ParseOuterHeaderCreation h p = Inr f \<and>
               field_values h f =
                 (0xC100, 15, Some [10, 1, 2, 3], None, 0, 0xAABBCC, 0xDDEEFF)"
    using layout_result_values [OF assms r] b by simp
qed

theorem C1_scenario_witness:
  "\<exists>f. ParseOuterHeaderCreation
          (store_of [0xC1, 0x00, 0x00, 0x00, 0x00, 0x0F, 0x0A, 0x01, 0x02, 0x03,
             0xAA, 0xBB, 0xCC, 0xDD, 0xEE, 0xFF])
          (whole [0xC1, 0x00, 0x00, 0x00, 0x00, 0x0F, 0x0A, 0x01, 0x02, 0x03,
             0xAA, 0xBB, 0xCC, 0xDD, 0xEE, 0xFF]) = Inr f \<and>
       field_values (store_of [0xC1, 0x00, 0x00, 0x00, 0x00, 0x0F, 0x0A, 0x01, 0x02, 0x03,
             0xAA, 0xBB, 0xCC, 0xDD, 0xEE, 0xFF]) f =
         (0xC100, 15, Some [10, 1, 2, 3], None, 0, 0xAABBCC, 0xDDEEFF)"
  using C1_scenario [OF valid_whole, of "[0xC1, 0x00, 0x00, 0x00, 0x00, 0x0F, 0x0A, 0x01, 0x02, 0x03,
             0xAA, 0xBB, 0xCC, 0xDD, 0xEE, 0xFF]"]
  by (simp add: bytes_whole)

text \<open>
  C6. A payload of length 0 or 1 is refused with the error of the length check, whose
  message contains "too short", whatever the store holds: nothing is read and no
  result is returned.
\<close>

theorem C6_too_short:
  "len p < 2 \<Longrightarrow>
     ParseOuterHeaderCreation h p = Inl PayloadTooShort \<and>
     sublist ''too short'' (Error PayloadTooShort)"
  by (simp add: ParseOuterHeaderCreation_def sublist_code)

theorem C6_too_short_witness:
  "ParseOuterHeaderCreation (store_of [0x01]) (whole [0x01]) = Inl PayloadTooShort \<and>
   ParseOuterHeaderCreation (store_of []) (whole []) = Inl PayloadTooShort \<and>
   sublist ''too short'' (Error PayloadTooShort)"
  using C6_too_short [of "whole [0x01]" "store_of [0x01]"]
    C6_too_short [of "whole []" "store_of []"]
  by (simp add: len_whole)

text \<open>
  C8. On every successful decode the C-TAG and the S-TAG of the result are below
  \<open>2 ^ 24\<close>, whether they were read from three bytes or left at zero. The bound is
  kept by each of the six blocks.
\<close>

theorem C8_tags:
  assumes "ParseOuterHeaderCreation h p = Inr f"
  shows "CTag f < 2 ^ 24 \<and> STag f < 2 ^ 24"
proof -
  define b where "b = slice_bytes h p"
  define f0 where "f0 = zero_fields\<lparr>OuterHeaderCreationDescription :=
                  push_bit 8 (ucast (b ! 0)) OR ucast (b ! 1)\<rparr>"
  have t0: "tags_24 f0" by (simp add: f0_def tags_24_def zero_fields_def)
  from assms have l: "\<not> len p < 2"
    by (auto simp: ParseOuterHeaderCreation_def Let_def split: if_splits)
  with assms have
    "and_then (parse_TEID (b ! 0) b (len p) (f0, 2)) (\<lambda>c.
       and_then (parse_IPv4 h p (b ! 0) (len p) c) (\<lambda>c.
       and_then (parse_IPv6 h p (b ! 0) (len p) c) (\<lambda>c.
       and_then (parse_Port (b ! 0) b (len p) c) (\<lambda>c.
       and_then (parse_CTag (b ! 0) b (len p) c) (\<lambda>c.
       and_then (parse_STag (b ! 0) b (len p) c) (\<lambda>(f, offset). Inr f)))))) = Inr f"
    by (simp add: ParseOuterHeaderCreation_def Let_def b_def f0_def)
  then obtain f1 i1 f2 i2 f3 i3 f4 i4 f5 i5 i6 where
    s: "parse_TEID (b ! 0) b (len p) (f0, 2) = Inr (f1, i1)"
       "parse_IPv4 h p (b ! 0) (len p) (f1, i1) = Inr (f2, i2)"
       "parse_IPv6 h p (b ! 0) (len p) (f2, i2) = Inr (f3, i3)"
       "parse_Port (b ! 0) b (len p) (f3, i3) = Inr (f4, i4)"
       "parse_CTag (b ! 0) b (len p) (f4, i4) = Inr (f5, i5)"
       "parse_STag (b ! 0) b (len p) (f5, i5) = Inr (f, i6)"
    by (fastforce dest!: and_then_Inr)
  note t1 = tags_24_TEID [OF s(1) t0]
  note t2 = tags_24_IPv4 [OF s(2) t1]
  note t3 = tags_24_IPv6 [OF s(3) t2]
  note t4 = tags_24_Port [OF s(4) t3]
  note t5 = tags_24_CTag [OF s(5) t4]
  have "tags_24 f" by (rule tags_24_STag [OF s(6) t5])
  then show ?thesis by (simp add: tags_24_def)
qed

theorem C8_tags_witness:
  "ParseOuterHeaderCreation
     (store_of [0xC0, 0x00, 0xFF, 0xFF, 0xFF, 0xFF, 0xFF, 0xFE])
     (whole [0xC0, 0x00, 0xFF, 0xFF, 0xFF, 0xFF, 0xFF, 0xFE]) =
     Inr (zero_fields\<lparr>OuterHeaderCreationDescription := 0xC000,
            CTag := 0xFFFFFF, STag := 0xFFFFFE\<rparr>) \<and>
   (0xFFFFFF :: 32 word) < 2 ^ 24 \<and> (0xFFFFFE :: 32 word) < 2 ^ 24"
proof -
  have e: "ParseOuterHeaderCreation
     (store_of [0xC0, 0x00, 0xFF, 0xFF, 0xFF, 0xFF, 0xFF, 0xFE])
     (whole [0xC0, 0x00, 0xFF, 0xFF, 0xFF, 0xFF, 0xFF, 0xFE]) =
     Inr (zero_fields\<lparr>OuterHeaderCreationDescription := 0xC000,
            CTag := 0xFFFFFF, STag := 0xFFFFFE\<rparr>)"
    by (simp add: eval_defs)
  from C8_tags [OF e] e show ?thesis by simp
qed

text \<open>
  C5. A payload of at least two bytes in which a selected sub-field does not fit (fewer
  bytes are left at its offset than its width) is refused: the decoder returns no
  result but the error of the first selected sub-field, in the order of the layout, that
  does not fit, and the error carries, and its message prints, the name of that
  sub-field and its offset.
\<close>

theorem C5_first_shortfall:
  assumes "valid_slice h p" and "2 \<le> len p"
    and "(name, i, w) \<in> set (fields_at (slice_bytes h p ! 0))" and "len p < i + w"
  shows "\<exists>name' i' w'.
           first_short (len p) (fields_at (slice_bytes h p ! 0)) = Some (name', i', w') \<and>
           ParseOuterHeaderCreation h p = Inl (InsufficientBytes name' i') \<and>
           Error (InsufficientBytes name' i') =
             ''OuterHeaderCreation: insufficient bytes for '' @ name' @ '' at offset '' @ fmt_d i'"
proof -
  have "first_short (len p) (fields_at (slice_bytes h p ! 0)) \<noteq> None"
    using assms(3,4) by (auto simp: first_short_def find_None_iff)
  then obtain name' i' w' where
    f: "first_short (len p) (fields_at (slice_bytes h p ! 0)) = Some (name', i', w')"
    by (cases "first_short (len p) (fields_at (slice_bytes h p ! 0))") auto
  from Parse_short [OF assms(1,2) f] f show ?thesis by simp
qed

theorem C5_first_shortfall_witness:
  "first_short 5 (fields_at (0x01 :: byte)) = Some (''TEID'', 2, 4) \<and>
   ParseOuterHeaderCreation (store_of [0x01, 0x00, 0x00, 0x00, 0x00])
     (whole [0x01, 0x00, 0x00, 0x00, 0x00]) = Inl (InsufficientBytes ''TEID'' 2) \<and>
   Error (InsufficientBytes ''TEID'' 2) =
     ''OuterHeaderCreation: insufficient bytes for TEID at offset 2''"
  using C5_first_shortfall [OF valid_whole, of "[0x01, 0x00, 0x00, 0x00, 0x00]" "''IPv4''" 6 4]
  by (simp add: bytes_whole len_whole fields_at_01 first_short_def fmt_d_2 del: fmt_d.simps)

text \<open>
  C3, as the claim states it, fails. The three bytes 00 00 FF decode; cut to two bytes
  they still decode, since the decoder never asks that all bytes be consumed; cut to one
  byte they are refused by the length check, not by a sub-field.
\<close>

theorem C3_counterexample:
  "ParseOuterHeaderCreation (store_of [0x00, 0x00, 0xFF]) (whole [0x00, 0x00, 0xFF]) =
     Inr zero_fields \<and>
   ParseOuterHeaderCreation (store_of [0x00, 0x00, 0xFF]) (reslice (whole [0x00, 0x00, 0xFF]) 0 2) =
     Inr zero_fields \<and>
   ParseOuterHeaderCreation (store_of [0x00, 0x00, 0xFF]) (reslice (whole [0x00, 0x00, 0xFF]) 0 1) =
     Inl PayloadTooShort"
  by (simp add: eval_defs)

text \<open>
  C3, amended. Let a payload decode, and cut it to its first \<open>n\<close> bytes, \<open>n\<close> less than
  its length. With \<open>n\<close> below 2 the length check refuses it. With \<open>n\<close> from 2 up to,
  but not including, 2 plus the widths of the selected sub-fields, the error is the one of
  the first selected sub-field that no longer fits, with its offset. With \<open>n\<close> from that
  bound on, the cut payload still decodes, to the same field values.
\<close>

theorem C3_truncation:
  assumes "valid_slice h p" and "ParseOuterHeaderCreation h p = Inr f" and "n < len p"
  shows "(n < 2 \<longrightarrow> ParseOuterHeaderCreation h (reslice p 0 n) = Inl PayloadTooShort) \<and>
         (2 \<le> n \<and> n < required (slice_bytes h p ! 0) \<longrightarrow>
            (\<exists>name i w.
               first_short n (fields_at (slice_bytes h p ! 0)) = Some (name, i, w) \<and>
               ParseOuterHeaderCreation h (reslice p 0 n) = Inl (InsufficientBytes name i))) \<and>
         (required (slice_bytes h p ! 0) \<le> n \<longrightarrow>
            (\<exists>f'. ParseOuterHeaderCreation h (reslice p 0 n) = Inr f' \<and>
                  field_values h f' = field_values h f))"
proof (intro conjI impI)
  let ?q = "reslice p 0 n"
  let ?c = "slice_bytes h p ! 0"
  have n: "n \<le> len p" using assms(3) by simp
  note v = valid_truncate [OF assms(1) n]
  note b = bytes_truncate [OF assms(1) n]
  note P = Parse_Inr [OF assms(1,2)]
  {
    assume "n < 2"
    then show "ParseOuterHeaderCreation h ?q = Inl PayloadTooShort"
      by (simp add: ParseOuterHeaderCreation_def len_truncate)
  }
  {
    assume a: "2 \<le> n \<and> n < required ?c"
    then have c: "slice_bytes h ?q ! 0 = ?c" by (simp add: b)
    from a have "first_short n (fields_at ?c) \<noteq> None"
      using first_short_None [of n ?c] by simp
    then obtain name i w where f: "first_short n (fields_at ?c) = Some (name, i, w)"
      by (cases "first_short n (fields_at ?c)") auto
    have "ParseOuterHeaderCreation h ?q = Inl (InsufficientBytes name i)"
      using a f by (intro Parse_short [OF v, of name i w]) (simp_all add: len_truncate c)
    with f show "\<exists>name i w. first_short n (fields_at ?c) = Some (name, i, w) \<and>
               ParseOuterHeaderCreation h ?q = Inl (InsufficientBytes name i)"
      by blast
  }
  {
    assume a: "required ?c \<le> n"
    then have n2: "2 \<le> n" using required_ge2 [of ?c] by simp
    then have c: "slice_bytes h ?q ! 0 = ?c" by (simp add: b)
    have s: "ParseOuterHeaderCreation h ?q = Inr (layout_result ?q (slice_bytes h ?q))"
      using a n2 by (intro Parse_success [OF v]) (simp_all add: len_truncate c)
    have "field_values h (layout_result ?q (slice_bytes h ?q)) = layout_values (slice_bytes h ?q)"
      using a by (intro layout_result_values [OF v]) (simp add: len_truncate c)
    also have "\<dots> = layout_values (slice_bytes h p)"
      unfolding b using n2 a by (rule layout_values_take)
    also have "\<dots> = field_values h f"
      using layout_result_values [OF assms(1) P(2)] P(3) by simp
    finally show "\<exists>f'. ParseOuterHeaderCreation h ?q = Inr f' \<and>
                  field_values h f' = field_values h f"
      using s by blast
  }
qed

theorem C3_truncation_witness:
  "ParseOuterHeaderCreation
     (store_of [0x01, 0x00, 0x00, 0x00, 0x00, 0x01, 0x0A, 0x00, 0x00, 0x01])
     (reslice (whole [0x01, 0x00, 0x00, 0x00, 0x00, 0x01, 0x0A, 0x00, 0x00, 0x01]) 0 7) =
     Inl (InsufficientBytes ''IPv4'' 6) \<and>
   ParseOuterHeaderCreation
     (store_of [0x01, 0x00, 0x00, 0x00, 0x00, 0x01, 0x0A, 0x00, 0x00, 0x01])
     (reslice (whole [0x01, 0x00, 0x00, 0x00, 0x00, 0x01, 0x0A, 0x00, 0x00, 0x01]) 0 1) =
     Inl PayloadTooShort"
proof -
  let ?b = "[0x01, 0x00, 0x00, 0x00, 0x00, 0x01, 0x0A, 0x00, 0x00, 0x01] :: byte list"
  have e: "ParseOuterHeaderCreation (store_of ?b) (whole ?b) =
      Inr (zero_fields\<lparr>OuterHeaderCreationDescription := 0x0100, TEID := 1,
             IPv4Address := Alias \<lparr>arr = 0, off = 6, len = 4\<rparr>\<rparr>)"
    by (simp add: eval_defs)
  have r: "required (0x01 :: byte) = 10"
    by (simp add: required_def present_TEID_def present_IPv4_def present_IPv6_def
          present_Port_def present_CTag_def present_STag_def flag_def off_defs)
  from C3_truncation [OF valid_whole e, of 7] C3_truncation [OF valid_whole e, of 1]
  show ?thesis
    by (simp add: bytes_whole len_whole fields_at_01 first_short_def r)
qed

text \<open>
  C10. The decoder of unnamed/part_000 and the one of pfcp/outer_header.go return the
  same for every store and payload: the same error, or the same fields.
\<close>

theorem C10_copies_agree:
  "ParseOuterHeaderCreation_part_000 h p = ParseOuterHeaderCreation h p"
  by (simp only: ParseOuterHeaderCreation_part_000_def ParseOuterHeaderCreation_def Let_def
        parse_TEID_def parse_IPv4_def parse_IPv6_def parse_Port_def parse_CTag_def parse_STag_def
        step_eq prod.case)

theorem C10_copies_agree_witness:
  "ParseOuterHeaderCreation_part_000
     (store_of [0x01, 0x00, 0x00, 0x00, 0x00, 0x01, 0x0A, 0x00, 0x00, 0x01])
     (whole [0x01, 0x00, 0x00, 0x00, 0x00, 0x01, 0x0A, 0x00, 0x00, 0x01]) =
     Inr (zero_fields\<lparr>OuterHeaderCreationDescription := 0x0100, TEID := 1,
            IPv4Address := Alias \<lparr>arr = 0, off = 6, len = 4\<rparr>\<rparr>) \<and>
   ParseOuterHeaderCreation_part_000 (store_of [0x20, 0x00, 0x00, 0x01])
     (whole [0x20, 0x00, 0x00, 0x01]) = Inl (InsufficientBytes ''IPv6'' 2)"
  using C10_copies_agree [of "store_of [0x01, 0x00, 0x00, 0x00, 0x00, 0x01, 0x0A, 0x00, 0x00, 0x01]"
      "whole [0x01, 0x00, 0x00, 0x00, 0x00, 0x01, 0x0A, 0x00, 0x00, 0x01]"]
    C10_copies_agree [of "store_of [0x20, 0x00, 0x00, 0x01]" "whole [0x20, 0x00, 0x00, 0x01]"]
  by (simp add: eval_defs)

text \<open>
  C9. The decoder never asks that the whole payload be consumed. A payload decodes
  exactly when it has at least 2 bytes and at least 2 plus the widths of the selected
  sub-fields; and when it decodes, so does every payload that continues it with more
  bytes, to the same field values.
\<close>

theorem C9_trailing_bytes:
  assumes "valid_slice h p" and "valid_slice h' p'"
    and "slice_bytes h' p' = slice_bytes h p @ extra"
  shows "((\<exists>f. ParseOuterHeaderCreation h p = Inr f) \<longleftrightarrow>
            2 \<le> len p \<and> required (slice_bytes h p ! 0) \<le> len p) \<and>
         (\<forall>f. ParseOuterHeaderCreation h p = Inr f \<longrightarrow>
            (\<exists>f'. ParseOuterHeaderCreation h' p' = Inr f' \<and>
                  field_values h' f' = field_values h f))"
proof (intro conjI allI impI)
  show "(\<exists>f. ParseOuterHeaderCreation h p = Inr f) \<longleftrightarrow>
            2 \<le> len p \<and> required (slice_bytes h p ! 0) \<le> len p"
    by (rule Parse_succeeds_iff [OF assms(1)])
next
  fix f assume ok: "ParseOuterHeaderCreation h p = Inr f"
  let ?b = "slice_bytes h p"
  note P = Parse_Inr [OF assms(1) ok]
  have l: "length ?b = len p" by (rule length_slice_bytes [OF assms(1)])
  have l': "len p' = len p + length extra"
    using length_slice_bytes [OF assms(2)] assms(3) l by simp
  have c: "slice_bytes h' p' ! 0 = ?b ! 0"
    using P(1) l by (cases ?b) (auto simp: assms(3))
  have r': "required (slice_bytes h' p' ! 0) \<le> len p'" using P(2) c l' by simp
  have s: "ParseOuterHeaderCreation h' p' = Inr (layout_result p' (slice_bytes h' p'))"
    using P(1) l' r' by (intro Parse_success [OF assms(2)]) simp_all
  have "field_values h' (layout_result p' (slice_bytes h' p')) = layout_values (?b @ extra)"
    using layout_result_values [OF assms(2) r'] assms(3) by simp
  also have "\<dots> = layout_values ?b"
    using P(1,2) l by (intro layout_values_append) simp_all
  also have "\<dots> = field_values h f"
    using layout_result_values [OF assms(1) P(2)] P(3) by simp
  finally show "\<exists>f'. ParseOuterHeaderCreation h' p' = Inr f' \<and>
                  field_values h' f' = field_values h f"
    using s by blast
qed

theorem C9_trailing_bytes_witness:
  "ParseOuterHeaderCreation (store_of [0x04, 0x00, 0xC0, 0xA8, 0x01, 0x01, 0x1F, 0x90])
     (whole [0x04, 0x00, 0xC0, 0xA8, 0x01, 0x01, 0x1F, 0x90]) =
     Inr (zero_fields\<lparr>OuterHeaderCreationDescription := 0x0400,
            IPv4Address := Alias \<lparr>arr = 0, off = 2, len = 4\<rparr>, PortNumber := 8080\<rparr>) \<and>
   (\<exists>f'. ParseOuterHeaderCreation
           (store_of [0x04, 0x00, 0xC0, 0xA8, 0x01, 0x01, 0x1F, 0x90, 0xDE, 0xAD])
           (whole [0x04, 0x00, 0xC0, 0xA8, 0x01, 0x01, 0x1F, 0x90, 0xDE, 0xAD]) = Inr f' \<and>
         field_values (store_of [0x04, 0x00, 0xC0, 0xA8, 0x01, 0x01, 0x1F, 0x90, 0xDE, 0xAD]) f' =
           (0x0400, 0, Some [0xC0, 0xA8, 0x01, 0x01], None, 8080, 0, 0))"
proof -
  let ?b = "[0x04, 0x00, 0xC0, 0xA8, 0x01, 0x01, 0x1F, 0x90] :: byte list"
  let ?f = "zero_fields\<lparr>OuterHeaderCreationDescription := 0x0400,
            IPv4Address := Alias \<lparr>arr = 0, off = 2, len = 4\<rparr>, PortNumber := 8080\<rparr>"
  have e: "ParseOuterHeaderCreation (store_of ?b) (whole ?b) = Inr ?f"
    by (simp add: eval_defs)
  have v: "field_values (store_of ?b) ?f = (0x0400, 0, Some [0xC0, 0xA8, 0x01, 0x01], None, 8080, 0, 0)"
    by (simp add: field_values_def ip_value_def slice_bytes_def store_of_def zero_fields_def)
  have a: "slice_bytes (store_of (?b @ [0xDE, 0xAD])) (whole (?b @ [0xDE, 0xAD])) =
           slice_bytes (store_of ?b) (whole ?b) @ [0xDE, 0xAD]"
    by (simp only: bytes_whole)
  from C9_trailing_bytes [OF valid_whole valid_whole a] e v
  show ?thesis by simp
qed

text \<open>
  C7. A sub-field that several bits of the flag octet select is read once. For every
  flag octet the decoder succeeds exactly when the payload holds 2 bytes and, once for
  each selected sub-field, its width. With the flag octet 0x05 (bits 1 and 3, both
  selecting IPv4) that is 12 bytes: TEID at 2, IPv4 at 6, Port at 10. With 0x03 (bits 1
  and 2, both selecting TEID) it is 26 bytes: TEID at 2, IPv4 at 6, IPv6 at 10.
\<close>

theorem C7_read_once:
  assumes "valid_slice h p" and "2 \<le> len p"
    and "b = slice_bytes h p" and "c = b ! 0"
  shows "((\<exists>f. ParseOuterHeaderCreation h p = Inr f) \<longleftrightarrow>
            2 + (if flag c 1 \<or> flag c 2 then 4 else 0)
              + (if flag c 1 \<or> flag c 3 \<or> flag c 5 then 4 else 0)
              + (if flag c 2 \<or> flag c 4 \<or> flag c 6 then 16 else 0)
              + (if flag c 3 \<or> flag c 4 then 2 else 0)
              + (if flag c 7 then 3 else 0)
              + (if flag c 8 then 3 else 0) \<le> len p) \<and>
         (c = 0x05 \<longrightarrow>
            ((\<exists>f. ParseOuterHeaderCreation h p = Inr f) \<longleftrightarrow> 12 \<le> len p) \<and>
            (\<forall>f. ParseOuterHeaderCreation h p = Inr f \<longrightarrow>
               field_values h f =
                 (of_nat (be_value (window b 0 2)), of_nat (be_value (window b 2 4)),
                  Some (window b 6 4), None, of_nat (be_value (window b 10 2)), 0, 0))) \<and>
         (c = 0x03 \<longrightarrow>
            ((\<exists>f. ParseOuterHeaderCreation h p = Inr f) \<longleftrightarrow> 26 \<le> len p) \<and>
            (\<forall>f. ParseOuterHeaderCreation h p = Inr f \<longrightarrow>
               field_values h f =
                 (of_nat (be_value (window b 0 2)), of_nat (be_value (window b 2 4)),
                  Some (window b 6 4), Some (window b 10 16), 0, 0, 0)))"
proof -
  note iff = Parse_succeeds_iff [OF assms(1), folded assms(3), folded assms(4)]
  have vals: "field_values h f = layout_values b" if "ParseOuterHeaderCreation h p = Inr f" for f
    using Parse_Inr [OF assms(1) that] layout_result_values [OF assms(1)] assms(3) by simp
  have g: "(\<exists>f. ParseOuterHeaderCreation h p = Inr f) \<longleftrightarrow>
            2 + (if flag c 1 \<or> flag c 2 then 4 else 0)
              + (if flag c 1 \<or> flag c 3 \<or> flag c 5 then 4 else 0)
              + (if flag c 2 \<or> flag c 4 \<or> flag c 6 then 16 else 0)
              + (if flag c 3 \<or> flag c 4 then 2 else 0)
              + (if flag c 7 then 3 else 0)
              + (if flag c 8 then 3 else 0) \<le> len p"
    unfolding iff using assms(2) by (simp add: required_def off_defs present_defs)
  have c5: "c = 0x05 \<Longrightarrow> layout_values b =
        (of_nat (be_value (window b 0 2)), of_nat (be_value (window b 2 4)),
                  Some (window b 6 4), None, of_nat (be_value (window b 10 2)), 0, 0)"
    unfolding layout_values_def Let_def assms(4) [symmetric]
    by (simp add: present_defs off_defs flag_def)
  have c3: "c = 0x03 \<Longrightarrow> layout_values b =
        (of_nat (be_value (window b 0 2)), of_nat (be_value (window b 2 4)),
                  Some (window b 6 4), Some (window b 10 16), 0, 0, 0)"
    unfolding layout_values_def Let_def assms(4) [symmetric]
    by (simp add: present_defs off_defs flag_def)
  show ?thesis
  proof (intro conjI impI allI)
    show "(\<exists>f. ParseOuterHeaderCreation h p = Inr f) \<longleftrightarrow>
            2 + (if flag c 1 \<or> flag c 2 then 4 else 0)
              + (if flag c 1 \<or> flag c 3 \<or> flag c 5 then 4 else 0)
              + (if flag c 2 \<or> flag c 4 \<or> flag c 6 then 16 else 0)
              + (if flag c 3 \<or> flag c 4 then 2 else 0)
              + (if flag c 7 then 3 else 0)
              + (if flag c 8 then 3 else 0) \<le> len p" by (rule g)
  next
    assume "c = 0x05"
    then show "(\<exists>f. ParseOuterHeaderCreation h p = Inr f) \<longleftrightarrow> 12 \<le> len p"
      unfolding g by (simp add: flag_def)
  next
    fix f assume "c = 0x05" "ParseOuterHeaderCreation h p = Inr f"
    then show "field_values h f =
                 (of_nat (be_value (window b 0 2)), of_nat (be_value (window b 2 4)),
                  Some (window b 6 4), None, of_nat (be_value (window b 10 2)), 0, 0)"
      using vals c5 by simp
  next
    assume "c = 0x03"
    then show "(\<exists>f. ParseOuterHeaderCreation h p = Inr f) \<longleftrightarrow> 26 \<le> len p"
      unfolding g by (simp add: flag_def)
  next
    fix f assume "c = 0x03" "ParseOuterHeaderCreation h p = Inr f"
    then show "field_values h f =
                 (of_nat (be_value (window b 0 2)), of_nat (be_value (window b 2 4)),
                  Some (window b 6 4), Some (window b 10 16), 0, 0, 0)"
      using vals c3 by simp
  qed
qed

theorem C7_read_once_witness:
  "ParseOuterHeaderCreation
     (store_of [0x05, 0x00, 0x00, 0x00, 0x00, 0x07, 0x0A, 0x00, 0x00, 0x01, 0x1F, 0x90])
     (whole [0x05, 0x00, 0x00, 0x00, 0x00, 0x07, 0x0A, 0x00, 0x00, 0x01, 0x1F, 0x90]) =
     Inr (zero_fields\<lparr>OuterHeaderCreationDescription := 0x0500, TEID := 7,
            IPv4Address := Alias \<lparr>arr = 0, off = 6, len = 4\<rparr>, PortNumber := 8080\<rparr>) \<and>
   field_values
     (store_of [0x05, 0x00, 0x00, 0x00, 0x00, 0x07, 0x0A, 0x00, 0x00, 0x01, 0x1F, 0x90])
     (zero_fields\<lparr>OuterHeaderCreationDescription := 0x0500, TEID := 7,
            IPv4Address := Alias \<lparr>arr = 0, off = 6, len = 4\<rparr>, PortNumber := 8080\<rparr>) =
     (0x0500, 7, Some [0x0A, 0x00, 0x00, 0x01], None, 8080, 0, 0)"
proof -
  let ?b = "[0x05, 0x00, 0x00, 0x00, 0x00, 0x07, 0x0A, 0x00, 0x00, 0x01, 0x1F, 0x90] :: byte list"
  have e: "ParseOuterHeaderCreation (store_of ?b) (whole ?b) =
     Inr (zero_fields\<lparr>OuterHeaderCreationDescription := 0x0500, TEID := 7,
            IPv4Address := Alias \<lparr>arr = 0, off = 6, len = 4\<rparr>, PortNumber := 8080\<rparr>)"
    by (simp add: eval_defs)
  from C7_read_once [where h = "store_of ?b" and p = "whole ?b" and b = ?b and c = "0x05"] e
  show ?thesis
    by (simp add: valid_whole bytes_whole len_whole window_def be_value_def)
qed

text \<open>
  C2, as the claim states it, fails: the result has the two accessors \<open>HasTEID\<close> and
  \<open>HasIPv4\<close> and no other. The payloads 00 00 01 02 03 and 40 00 01 02 03 both decode,
  the second with a C-TAG read and the first without, and both accessors answer the same
  on the two results.
\<close>

theorem C2_counterexample:
  "ParseOuterHeaderCreation (store_of [0x00, 0x00, 0x01, 0x02, 0x03])
     (whole [0x00, 0x00, 0x01, 0x02, 0x03]) = Inr zero_fields \<and>
   ParseOuterHeaderCreation (store_of [0x40, 0x00, 0x01, 0x02, 0x03])
     (whole [0x40, 0x00, 0x01, 0x02, 0x03]) =
     Inr (zero_fields\<lparr>OuterHeaderCreationDescription := 0x4000, CTag := 0x010203\<rparr>) \<and>
   HasTEID zero_fields =
     HasTEID (zero_fields\<lparr>OuterHeaderCreationDescription := 0x4000, CTag := 0x010203\<rparr>) \<and>
   HasIPv4 zero_fields =
     HasIPv4 (zero_fields\<lparr>OuterHeaderCreationDescription := 0x4000, CTag := 0x010203\<rparr>) \<and>
   CTag zero_fields \<noteq>
     CTag (zero_fields\<lparr>OuterHeaderCreationDescription := 0x4000, CTag := 0x010203\<rparr>)"
  by (simp add: eval_defs HasTEID_def HasIPv4_def)

text \<open>
  C2, amended. \<open>HasTEID\<close> and \<open>HasIPv4\<close> are computed from the high byte of the stored
  description: TEID iff bit 1 or 2, IPv4 iff bit 1, 3 or 5 (bits 8, 9, 10, 12 of the
  16-bit description, counted from 0). After a successful decode the high byte of the
  description is the flag octet, the two accessors agree with the conditions the decoder
  tested for TEID and IPv4, and the conditions it tested for IPv6, Port, C-TAG and S-TAG
  are bit 2, 4 or 6, bit 3 or 4, bit 7 and bit 8 of that high byte; for these four the
  result has no accessor. These six answers are the decisions the decoder took: it read
  the TEID exactly when \<open>HasTEID\<close> holds of the result and the IPv4 address exactly when
  \<open>HasIPv4\<close> does, the other four exactly when their bits of the description are set,
  each at the offset that the answers for the sub-fields before it give, and it left
  every other sub-field zero or nil.
\<close>

theorem C2_accessors:
  "(HasTEID g \<longleftrightarrow>
      bit (OuterHeaderCreationDescription g) 8 \<or> bit (OuterHeaderCreationDescription g) 9) \<and>
   (HasIPv4 g \<longleftrightarrow>
      bit (OuterHeaderCreationDescription g) 8 \<or> bit (OuterHeaderCreationDescription g) 10 \<or>
      bit (OuterHeaderCreationDescription g) 12) \<and>
   (valid_slice h p \<longrightarrow> ParseOuterHeaderCreation h p = Inr f \<longrightarrow>
      (let oct5 = slice_bytes h p ! 0; d = OuterHeaderCreationDescription f in
         ucast (drop_bit 8 d) = oct5 \<and>
         (HasTEID f \<longleftrightarrow> (oct5 AND 0x01) \<noteq> 0 \<or> (oct5 AND 0x02) \<noteq> 0) \<and>
         (HasIPv4 f \<longleftrightarrow> (oct5 AND 0x01) \<noteq> 0 \<or> (oct5 AND 0x04) \<noteq> 0 \<or> (oct5 AND 0x10) \<noteq> 0) \<and>
         (bit d 9 \<or> bit d 11 \<or> bit d 13 \<longleftrightarrow>
            (oct5 AND 0x02) \<noteq> 0 \<or> (oct5 AND 0x08) \<noteq> 0 \<or> (oct5 AND 0x20) \<noteq> 0) \<and>
         (bit d 10 \<or> bit d 11 \<longleftrightarrow> (oct5 AND 0x04) \<noteq> 0 \<or> (oct5 AND 0x08) \<noteq> 0) \<and>
         (bit d 14 \<longleftrightarrow> (oct5 AND 0x40) \<noteq> 0) \<and>
         (bit d 15 \<longleftrightarrow> (oct5 AND 0x80) \<noteq> 0))) \<and>
   (valid_slice h p \<longrightarrow> ParseOuterHeaderCreation h p = Inr f \<longrightarrow>
      (let b = slice_bytes h p; d = OuterHeaderCreationDescription f;
           teid = HasTEID f;
           ipv4 = HasIPv4 f;
           ipv6 = (bit d 9 \<or> bit d 11 \<or> bit d 13);
           port = (bit d 10 \<or> bit d 11);
           ctag = bit d 14;
           stag = bit d 15;
           o1 = 2 + (if teid then 4 else 0);
           o2 = o1 + (if ipv4 then 4 else 0);
           o3 = o2 + (if ipv6 then 16 else 0);
           o4 = o3 + (if port then 2 else 0);
           o5 = o4 + (if ctag then 3 else 0)
       in o5 + (if stag then 3 else 0) \<le> len p \<and>
          TEID f = (if teid then of_nat (be_value (window b 2 4)) else 0) \<and>
          IPv4Address f = (if ipv4 then Alias (reslice p o1 (o1 + 4)) else NilIP) \<and>
          IPv6Address f = (if ipv6 then Alias (reslice p o2 (o2 + 16)) else NilIP) \<and>
          PortNumber f = (if port then of_nat (be_value (window b o3 2)) else 0) \<and>
          CTag f = (if ctag then of_nat (be_value (window b o4 3)) else 0) \<and>
          STag f = (if stag then of_nat (be_value (window b o5 3)) else 0)))"
proof -
  have acc: "HasTEID g \<longleftrightarrow>
      bit (OuterHeaderCreationDescription g) 8 \<or> bit (OuterHeaderCreationDescription g) 9"
    "HasIPv4 g \<longleftrightarrow>
      bit (OuterHeaderCreationDescription g) 8 \<or> bit (OuterHeaderCreationDescription g) 10 \<or>
      bit (OuterHeaderCreationDescription g) 12"
    by (rule HasTEID_bits, rule HasIPv4_bits)
  {
    assume a: "valid_slice h p" "ParseOuterHeaderCreation h p = Inr f"
    define b where "b = slice_bytes h p"
    define c where "c = b ! 0"
    define d where "d = OuterHeaderCreationDescription f"
    note P = Parse_Inr [OF a, folded b_def, folded c_def]
    have d: "d = push_bit 8 (ucast c) OR ucast (b ! 1)"
      unfolding d_def c_def b_def by (rule Parse_description [OF a])
    have bits: "bit d 8 = bit c 0" "bit d 9 = bit c 1" "bit d 10 = bit c 2" "bit d 11 = bit c 3"
      "bit d 12 = bit c 4" "bit d 13 = bit c 5" "bit d 14 = bit c 6" "bit d 15 = bit c 7"
      using desc_bit [of 0 c "b ! 1"] desc_bit [of 1 c "b ! 1"]
        desc_bit [of 2 c "b ! 1"] desc_bit [of 3 c "b ! 1"]
        desc_bit [of 4 c "b ! 1"] desc_bit [of 5 c "b ! 1"]
        desc_bit [of 6 c "b ! 1"] desc_bit [of 7 c "b ! 1"]
      by (simp_all add: d)
    have hi: "ucast (drop_bit 8 d) = c" unfolding d by (rule desc_hi)
    have t: "HasTEID f \<longleftrightarrow> bit d 8 \<or> bit d 9"
      and v: "HasIPv4 f \<longleftrightarrow> bit d 8 \<or> bit d 10 \<or> bit d 12"
      unfolding d_def by (rule HasTEID_bits, rule HasIPv4_bits)
    have first: "let oct5 = slice_bytes h p ! 0; d = OuterHeaderCreationDescription f in
         ucast (drop_bit 8 d) = oct5 \<and>
         (HasTEID f \<longleftrightarrow> (oct5 AND 0x01) \<noteq> 0 \<or> (oct5 AND 0x02) \<noteq> 0) \<and>
         (HasIPv4 f \<longleftrightarrow> (oct5 AND 0x01) \<noteq> 0 \<or> (oct5 AND 0x04) \<noteq> 0 \<or> (oct5 AND 0x10) \<noteq> 0) \<and>
         (bit d 9 \<or> bit d 11 \<or> bit d 13 \<longleftrightarrow>
            (oct5 AND 0x02) \<noteq> 0 \<or> (oct5 AND 0x08) \<noteq> 0 \<or> (oct5 AND 0x20) \<noteq> 0) \<and>
         (bit d 10 \<or> bit d 11 \<longleftrightarrow> (oct5 AND 0x04) \<noteq> 0 \<or> (oct5 AND 0x08) \<noteq> 0) \<and>
         (bit d 14 \<longleftrightarrow> (oct5 AND 0x40) \<noteq> 0) \<and>
         (bit d 15 \<longleftrightarrow> (oct5 AND 0x80) \<noteq> 0)"
      unfolding Let_def b_def [symmetric] c_def [symmetric] d_def [symmetric] t v mask_flag flag_def
        hi bits
      by simp
    have pr: "present_TEID c = HasTEID f" "present_IPv4 c = HasIPv4 f"
      "present_IPv6 c = (bit d 9 \<or> bit d 11 \<or> bit d 13)"
      "present_Port c = (bit d 10 \<or> bit d 11)"
      "present_CTag c = bit d 14" "present_STag c = bit d 15"
      unfolding present_defs flag_def t v bits by simp_all
    have F: "TEID f = (if present_TEID c then of_nat (be_value (window b (off_TEID c) 4)) else 0)"
      "IPv4Address f =
         (if present_IPv4 c then Alias (reslice p (off_IPv4 c) (off_IPv4 c + 4)) else NilIP)"
      "IPv6Address f =
         (if present_IPv6 c then Alias (reslice p (off_IPv6 c) (off_IPv6 c + 16)) else NilIP)"
      "PortNumber f = (if present_Port c then of_nat (be_value (window b (off_Port c) 2)) else 0)"
      "CTag f = (if present_CTag c then of_nat (be_value (window b (off_CTag c) 3)) else 0)"
      "STag f = (if present_STag c then of_nat (be_value (window b (off_STag c) 3)) else 0)"
      unfolding P(3) layout_result_def Let_def c_def [symmetric] by simp_all
    have second: "let b = slice_bytes h p; d = OuterHeaderCreationDescription f;
           teid = HasTEID f;
           ipv4 = HasIPv4 f;
           ipv6 = (bit d 9 \<or> bit d 11 \<or> bit d 13);
           port = (bit d 10 \<or> bit d 11);
           ctag = bit d 14;
           stag = bit d 15;
           o1 = 2 + (if teid then 4 else 0);
           o2 = o1 + (if ipv4 then 4 else 0);
           o3 = o2 + (if ipv6 then 16 else 0);
           o4 = o3 + (if port then 2 else 0);
           o5 = o4 + (if ctag then 3 else 0)
       in o5 + (if stag then 3 else 0) \<le> len p \<and>
          TEID f = (if teid then of_nat (be_value (window b 2 4)) else 0) \<and>
          IPv4Address f = (if ipv4 then Alias (reslice p o1 (o1 + 4)) else NilIP) \<and>
          IPv6Address f = (if ipv6 then Alias (reslice p o2 (o2 + 16)) else NilIP) \<and>
          PortNumber f = (if port then of_nat (be_value (window b o3 2)) else 0) \<and>
          CTag f = (if ctag then of_nat (be_value (window b o4 3)) else 0) \<and>
          STag f = (if stag then of_nat (be_value (window b o5 3)) else 0)"
      using P(2) F
      unfolding Let_def b_def [symmetric] d_def [symmetric] required_def off_defs pr
      by (intro conjI) assumption+
    note first second
  }
  with acc show ?thesis by blast
qed

theorem C2_accessors_witness:
  "ParseOuterHeaderCreation
     (store_of [0x01, 0x00, 0x00, 0x00, 0x00, 0x01, 0x0A, 0x00, 0x00, 0x01])
     (whole [0x01, 0x00, 0x00, 0x00, 0x00, 0x01, 0x0A, 0x00, 0x00, 0x01]) =
     Inr (zero_fields\<lparr>OuterHeaderCreationDescription := 0x0100, TEID := 1,
            IPv4Address := Alias \<lparr>arr = 0, off = 6, len = 4\<rparr>\<rparr>) \<and>
   HasTEID (zero_fields\<lparr>OuterHeaderCreationDescription := 0x0100, TEID := 1,
            IPv4Address := Alias \<lparr>arr = 0, off = 6, len = 4\<rparr>\<rparr>) \<and>
   HasIPv4 (zero_fields\<lparr>OuterHeaderCreationDescription := 0x0100, TEID := 1,
            IPv4Address := Alias \<lparr>arr = 0, off = 6, len = 4\<rparr>\<rparr>)"
proof -
  let ?b = "[0x01, 0x00, 0x00, 0x00, 0x00, 0x01, 0x0A, 0x00, 0x00, 0x01] :: byte list"
  let ?f = "zero_fields\<lparr>OuterHeaderCreationDescription := 0x0100, TEID := 1,
            IPv4Address := Alias \<lparr>arr = 0, off = 6, len = 4\<rparr>\<rparr>"
  have e: "ParseOuterHeaderCreation (store_of ?b) (whole ?b) = Inr ?f"
    by (simp add: eval_defs)
  from C2_accessors [of ?f "store_of ?b" "whole ?b" ?f] e
  show ?thesis
    by (simp add: valid_whole bytes_whole Let_def)
qed

text \<open>
  C4. The claim asks that the addresses of the result be copies. They are not:
  \<open>To4\<close> and \<open>To16\<close> hand back the slice they are given, so after a successful decode
  the IPv4 and the IPv6 address of the result are windows on the caller's payload, and a
  write of \<open>v\<close> to a payload byte inside the window is seen through the result. The
  instance below is the repository's own test of memory independence: after
  \<open>payload[6] = 0xff\<close> the address 10.0.0.1 reads 255.0.0.1.
\<close>

theorem C4_addresses_alias_payload:
  assumes "valid_slice h p" and "ParseOuterHeaderCreation h p = Inr f"
    and "b = slice_bytes h p" and "c = b ! 0"
  shows "(present_IPv4 c \<and> k < 4 \<longrightarrow>
            ip_value h (IPv4Address f) = Some (window b (off_IPv4 c) 4) \<and>
            ip_value (slice_store h p (off_IPv4 c + k) v) (IPv4Address f) =
              Some ((window b (off_IPv4 c) 4)[k := v])) \<and>
         (present_IPv6 c \<and> k < 16 \<longrightarrow>
            ip_value h (IPv6Address f) = Some (window b (off_IPv6 c) 16) \<and>
            ip_value (slice_store h p (off_IPv6 c + k) v) (IPv6Address f) =
              Some ((window b (off_IPv6 c) 16)[k := v]))"
proof (intro conjI impI)
  note P = Parse_Inr [OF assms(1,2), folded assms(3), folded assms(4)]
  {
    assume a: "present_IPv4 c \<and> k < 4"
    then have fit: "off_IPv4 c + 4 \<le> len p" using off_IPv4_fits [of c] P(2) by simp
    from a P(3) have ip: "IPv4Address f = Alias (reslice p (off_IPv4 c) (off_IPv4 c + 4))"
      by (simp add: layout_result_def Let_def assms(4) [symmetric])
    show "ip_value h (IPv4Address f) = Some (window b (off_IPv4 c) 4)"
      using window_slice [OF assms(1) fit, of "off_IPv4 c"]
      by (simp add: ip ip_value_def assms(3))
    show "ip_value (slice_store h p (off_IPv4 c + k) v) (IPv4Address f) =
              Some ((window b (off_IPv4 c) 4)[k := v])"
      using store_seen [OF assms(1) fit, of k v] a
      by (simp add: ip ip_value_def assms(3))
  }
  {
    assume a: "present_IPv6 c \<and> k < 16"
    then have fit: "off_IPv6 c + 16 \<le> len p" using off_IPv6_fits [of c] P(2) by simp
    from a P(3) have ip: "IPv6Address f = Alias (reslice p (off_IPv6 c) (off_IPv6 c + 16))"
      by (simp add: layout_result_def Let_def assms(4) [symmetric])
    show "ip_value h (IPv6Address f) = Some (window b (off_IPv6 c) 16)"
      using window_slice [OF assms(1) fit, of "off_IPv6 c"]
      by (simp add: ip ip_value_def assms(3))
    show "ip_value (slice_store h p (off_IPv6 c + k) v) (IPv6Address f) =
              Some ((window b (off_IPv6 c) 16)[k := v])"
      using store_seen [OF assms(1) fit, of k v] a
      by (simp add: ip ip_value_def assms(3))
  }
qed

theorem C4_memory_independence_test:
  "ParseOuterHeaderCreation
     (store_of [0x01, 0x00, 0x00, 0x00, 0x00, 0x01, 0x0A, 0x00, 0x00, 0x01])
     (whole [0x01, 0x00, 0x00, 0x00, 0x00, 0x01, 0x0A, 0x00, 0x00, 0x01]) =
     Inr (zero_fields\<lparr>OuterHeaderCreationDescription := 0x0100, TEID := 1,
            IPv4Address := Alias \<lparr>arr = 0, off = 6, len = 4\<rparr>\<rparr>) \<and>
   ip_value (store_of [0x01, 0x00, 0x00, 0x00, 0x00, 0x01, 0x0A, 0x00, 0x00, 0x01])
     (Alias \<lparr>arr = 0, off = 6, len = 4\<rparr>) = Some [0x0A, 0x00, 0x00, 0x01] \<and>
   ip_value
     (slice_store (store_of [0x01, 0x00, 0x00, 0x00, 0x00, 0x01, 0x0A, 0x00, 0x00, 0x01])
        (whole [0x01, 0x00, 0x00, 0x00, 0x00, 0x01, 0x0A, 0x00, 0x00, 0x01]) 6 0xFF)
     (Alias \<lparr>arr = 0, off = 6, len = 4\<rparr>) = Some [0xFF, 0x00, 0x00, 0x01]"
proof -
  let ?b = "[0x01, 0x00, 0x00, 0x00, 0x00, 0x01, 0x0A, 0x00, 0x00, 0x01] :: byte list"
  let ?f = "zero_fields\<lparr>OuterHeaderCreationDescription := 0x0100, TEID := 1,
            IPv4Address := Alias \<lparr>arr = 0, off = 6, len = 4\<rparr>\<rparr>"
  have e: "ParseOuterHeaderCreation (store_of ?b) (whole ?b) = Inr ?f"
    by (simp add: eval_defs)
  have o: "present_IPv4 (0x01 :: byte)" "off_IPv4 (0x01 :: byte) = 6"
    by (simp_all add: present_defs off_defs flag_def)
  from C4_addresses_alias_payload [OF valid_whole e, of ?b "0x01" 0 "0xFF"] e o
  show ?thesis
    by (simp add: bytes_whole window_def zero_fields_def)
qed

end
